theory Spec2Isabelle
  imports Main "HOL-Library.Word"
begin

section \<open>qTox audio devices: a shallow embedding of \<open>src/audio/devices.cpp\<close>\<close>

text \<open>
  The file wraps the RtAudio library: \<open>Device\<close> is a value holding one
  \<open>RtAudio::DeviceInfo\<close>, \<open>StreamContext\<close> owns one \<open>RtAudio\<close> instance together
  with the parameters of the stream it opens. RtAudio itself is a third-party library and
  not part of the file, so the library is a parameter of every function below: a record of
  functions over an arbitrary instance state \<open>'s\<close>, and every theorem holds for
  every such record.

  C++ \<open>unsigned int\<close> and \<open>quint32\<close> are 32-bit words; \<open>int\<close> is a 32-bit word read in
  two's complement (\<open>sint\<close>).
\<close>

type_synonym unsigned_int = "32 word"
type_synonym c_int = "32 word"

subsection \<open>The RtAudio interface\<close>

text \<open>
  \<open>RtAudio::DeviceInfo\<close>, with the fields the file reads. (The library's structure also
  lists sample rates and native formats; no function of the file touches them.)
\<close>

record DeviceInfo =
  di_probed :: bool
  di_name :: string
  di_outputChannels :: unsigned_int
  di_inputChannels :: unsigned_int
  di_duplexChannels :: unsigned_int
  di_isDefaultOutput :: bool
  di_isDefaultInput :: bool

record StreamParameters =
  deviceId :: unsigned_int
  nChannels :: unsigned_int
  firstChannel :: unsigned_int

record StreamOptions =
  so_flags :: unsigned_int
  so_numberOfBuffers :: unsigned_int
  so_streamName :: string
  so_priority :: c_int

text \<open>The sample formats of \<open>RtAudioFormat\<close>; the file only ever names \<open>RTAUDIO_SINT16\<close>.\<close>

datatype RtAudioFormat =
  RTAUDIO_SINT8 | RTAUDIO_SINT16 | RTAUDIO_SINT24 | RTAUDIO_SINT32
  | RTAUDIO_FLOAT32 | RTAUDIO_FLOAT64

text \<open>
  A library call can leave by a C++ exception (\<open>RtAudioError\<close>); the file has no
  \<open>try\<close>, so an exception leaves the calling function as well.
\<close>

datatype RtAudioError = RtAudioError (getMessage: string)

text \<open>
  The function pointers the file hands to the library: \<open>nullptr\<close>, or the address of
  its own \<open>cb_rtaudio_error\<close>, which prints the message as a warning.
\<close>

datatype fn_ptr = nullptr | addr_cb_rtaudio_error

text \<open>\<open>cb_rtaudio_error\<close> ignores the error type; the result is what it streams to \<open>qWarning()\<close>.\<close>

definition cb_rtaudio_error :: "'t \<Rightarrow> string \<Rightarrow> string list" where
  "cb_rtaudio_error type message = [''RtAudio:'', message]"

text \<open>The arguments of one \<open>RtAudio::openStream\<close> call, in the order of its signature.\<close>

record openStream_args =
  arg_outputParameters :: "StreamParameters option"
  arg_inputParameters :: "StreamParameters option"
  arg_format :: RtAudioFormat
  arg_sampleRate :: unsigned_int
  arg_bufferFrames :: unsigned_int
  arg_callback :: fn_ptr
  arg_userData :: fn_ptr
  arg_options :: "StreamOptions option"
  arg_errorCallback :: fn_ptr

text \<open>
  The library, over its instance state \<open>'s\<close>. \<open>new_instance\<close> is the state of a
  default-constructed \<open>RtAudio\<close> object. The three queries \<open>getDeviceCount\<close>,
  \<open>isStreamOpen\<close> and \<open>isStreamRunning\<close> only read the state. \<open>getDeviceInfo\<close> reads it
  too, and either returns or throws. The stream calls return the new state and, when they
  throw, the exception; \<open>openStream\<close> receives \<open>bufferFrames\<close> by pointer, so it also
  returns the value it leaves there. The parameter structures are read through their
  pointers, not written.
\<close>

record 's RtAudio_api =
  new_instance :: 's
  getDeviceCount :: "'s \<Rightarrow> unsigned_int"
  getDeviceInfo :: "'s \<Rightarrow> unsigned_int \<Rightarrow> RtAudioError + DeviceInfo"
  showWarnings :: "bool \<Rightarrow> 's \<Rightarrow> 's"
  isStreamOpen :: "'s \<Rightarrow> bool"
  isStreamRunning :: "'s \<Rightarrow> bool"
  openStream :: "openStream_args \<Rightarrow> 's \<Rightarrow> RtAudioError option \<times> 's \<times> unsigned_int"
  closeStream :: "'s \<Rightarrow> RtAudioError option \<times> 's"
  startStream :: "'s \<Rightarrow> RtAudioError option \<times> 's"
  stopStream :: "'s \<Rightarrow> RtAudioError option \<times> 's"

subsection \<open>Device\<close>

text \<open>
  \<open>Device::Private\<close> holds the device info; a \<open>Device\<close> is a shared handle \<open>d\<close> to
  one. Every \<open>Device\<close> the file makes comes from \<open>new Device::Private(...)\<close>, so the
  handle is never null.
\<close>

record Device_Private =
  info :: DeviceInfo

datatype Device = Device (Device_d: Device_Private)

text \<open>
  \<open>Device::availableDevices\<close>: the loop \<open>for (unsigned int i = 0; i < audio.getDeviceCount(); i++)\<close>
  over a local \<open>RtAudio\<close> instance \<open>a\<close>, appending one \<open>Device\<close> per index.
\<close>

function availableDevices_loop ::
  "'s RtAudio_api \<Rightarrow> 's \<Rightarrow> unsigned_int \<Rightarrow> Device list \<Rightarrow> RtAudioError + Device list" where
  "availableDevices_loop E a i devices =
     (if i < getDeviceCount E a then
        (case getDeviceInfo E a i of
           Inl e \<Rightarrow> Inl e
         | Inr devInfo \<Rightarrow>
             availableDevices_loop E a (i + 1) (devices @ [Device \<lparr>info = devInfo\<rparr>]))
      else Inr devices)"
  by pat_completeness auto
termination
  by (relation "measure (\<lambda>(E, a, i, devices). unat (getDeviceCount E a) - unat i)")
     (simp, simp, unat_arith)

definition Device_availableDevices :: "'s RtAudio_api \<Rightarrow> RtAudioError + Device list" where
  "Device_availableDevices E = availableDevices_loop E (new_instance E) 0 []"

text \<open>
  \<open>Device::find\<close>: the same loop, leaving at the first index whose device name equals
  \<open>deviceName\<close> (as the \<open>std::string\<close> that \<open>toStdString()\<close> makes of it). The casts
  between \<open>unsigned int\<close> and \<open>int\<close> keep the 32 bits.
\<close>

definition static_cast_int :: "unsigned_int \<Rightarrow> c_int" where
  "static_cast_int i = i"

function find_loop ::
  "'s RtAudio_api \<Rightarrow> 's \<Rightarrow> string \<Rightarrow> unsigned_int \<Rightarrow> RtAudioError + c_int" where
  "find_loop E a name i =
     (if i < getDeviceCount E a then
        (case getDeviceInfo E a i of
           Inl e \<Rightarrow> Inl e
         | Inr devInfo \<Rightarrow>
             if name = di_name devInfo then Inr (static_cast_int i)
             else find_loop E a name (i + 1))
      else Inr (- 1))"
  by pat_completeness auto
termination
  by (relation "measure (\<lambda>(E, a, name, i). unat (getDeviceCount E a) - unat i)")
     (simp, simp, unat_arith)

definition Device_find :: "'s RtAudio_api \<Rightarrow> string \<Rightarrow> RtAudioError + c_int" where
  "Device_find E deviceName = find_loop E (new_instance E) deviceName 0"

text \<open>The accessors of \<open>Device\<close>, each reading one field through \<open>d->info\<close>.\<close>

definition Device_isValid :: "Device \<Rightarrow> bool" where
  "Device_isValid dev = di_probed (info (Device_d dev))"

definition Device_name :: "Device \<Rightarrow> string" where
  "Device_name dev = di_name (info (Device_d dev))"

definition Device_inputChannels :: "Device \<Rightarrow> unsigned_int" where
  "Device_inputChannels dev = di_inputChannels (info (Device_d dev))"

definition Device_outputChannels :: "Device \<Rightarrow> unsigned_int" where
  "Device_outputChannels dev = di_outputChannels (info (Device_d dev))"

definition Device_duplexChannels :: "Device \<Rightarrow> unsigned_int" where
  "Device_duplexChannels dev = di_duplexChannels (info (Device_d dev))"

definition Device_isOutput :: "Device \<Rightarrow> bool" where
  "Device_isOutput dev \<longleftrightarrow> di_outputChannels (info (Device_d dev)) > 0"

definition Device_isDefaultOutput :: "Device \<Rightarrow> bool" where
  "Device_isDefaultOutput dev = di_isDefaultOutput (info (Device_d dev))"

definition Device_isInput :: "Device \<Rightarrow> bool" where
  "Device_isInput dev \<longleftrightarrow> di_inputChannels (info (Device_d dev)) > 0"

definition Device_isDefaultInput :: "Device \<Rightarrow> bool" where
  "Device_isDefaultInput dev = di_isDefaultOutput (info (Device_d dev))"


subsection \<open>StreamContext\<close>

text \<open>
  An \<open>RtAudio\<close> object as the file uses it: the library's instance state, and the
  sequence of the state-changing calls made on the object so far. The sequence is not
  in the source; it is kept so that "no native call is made" can be stated.
\<close>

datatype native_call =
  ShowWarnings bool | OpenStream openStream_args | CloseStream | StartStream | StopStream

record 's RtAudio =
  rt_state :: 's
  rt_calls :: "native_call list"

definition RtAudio_new :: "'s RtAudio_api \<Rightarrow> 's RtAudio" where
  "RtAudio_new E = \<lparr>rt_state = new_instance E, rt_calls = []\<rparr>"

definition RtAudio_getDeviceInfo ::
  "'s RtAudio_api \<Rightarrow> 's RtAudio \<Rightarrow> unsigned_int \<Rightarrow> RtAudioError + DeviceInfo" where
  "RtAudio_getDeviceInfo E A devId = getDeviceInfo E (rt_state A) devId"

definition RtAudio_showWarnings :: "'s RtAudio_api \<Rightarrow> bool \<Rightarrow> 's RtAudio \<Rightarrow> 's RtAudio" where
  "RtAudio_showWarnings E b A =
     \<lparr>rt_state = showWarnings E b (rt_state A), rt_calls = rt_calls A @ [ShowWarnings b]\<rparr>"

definition RtAudio_isStreamOpen :: "'s RtAudio_api \<Rightarrow> 's RtAudio \<Rightarrow> bool" where
  "RtAudio_isStreamOpen E A = isStreamOpen E (rt_state A)"

definition RtAudio_isStreamRunning :: "'s RtAudio_api \<Rightarrow> 's RtAudio \<Rightarrow> bool" where
  "RtAudio_isStreamRunning E A = isStreamRunning E (rt_state A)"

definition RtAudio_openStream ::
  "'s RtAudio_api \<Rightarrow> openStream_args \<Rightarrow> 's RtAudio
     \<Rightarrow> RtAudioError option \<times> 's RtAudio \<times> unsigned_int" where
  "RtAudio_openStream E args A =
     (case openStream E args (rt_state A) of
        (exn, s', frames') \<Rightarrow>
          (exn, \<lparr>rt_state = s', rt_calls = rt_calls A @ [OpenStream args]\<rparr>, frames'))"

definition RtAudio_closeStream ::
  "'s RtAudio_api \<Rightarrow> 's RtAudio \<Rightarrow> RtAudioError option \<times> 's RtAudio" where
  "RtAudio_closeStream E A =
     (case closeStream E (rt_state A) of
        (exn, s') \<Rightarrow> (exn, \<lparr>rt_state = s', rt_calls = rt_calls A @ [CloseStream]\<rparr>))"

definition RtAudio_startStream ::
  "'s RtAudio_api \<Rightarrow> 's RtAudio \<Rightarrow> RtAudioError option \<times> 's RtAudio" where
  "RtAudio_startStream E A =
     (case startStream E (rt_state A) of
        (exn, s') \<Rightarrow> (exn, \<lparr>rt_state = s', rt_calls = rt_calls A @ [StartStream]\<rparr>))"

definition RtAudio_stopStream ::
  "'s RtAudio_api \<Rightarrow> 's RtAudio \<Rightarrow> RtAudioError option \<times> 's RtAudio" where
  "RtAudio_stopStream E A =
     (case stopStream E (rt_state A) of
        (exn, s') \<Rightarrow> (exn, \<lparr>rt_state = s', rt_calls = rt_calls A @ [StopStream]\<rparr>))"

text \<open>
  \<open>StreamContext::Private\<close>. The three pointer members are \<open>None\<close> for \<open>nullptr\<close>; each
  structure they point to is built by \<open>create\<close> for this object alone.
\<close>

record 's Private =
  audio :: "'s RtAudio"
  format :: RtAudioFormat
  sampleRate :: unsigned_int
  bufferFrames :: unsigned_int
  inParams :: "StreamParameters option"
  outParams :: "StreamParameters option"
  opts :: "StreamOptions option"

text \<open>The constructor: the member initialisers, then \<open>audio.showWarnings(true)\<close>.\<close>

definition Private_new ::
  "'s RtAudio_api \<Rightarrow> StreamParameters option \<Rightarrow> StreamParameters option
     \<Rightarrow> StreamOptions option \<Rightarrow> 's Private" where
  "Private_new E inputParms outputParams options =
     \<lparr>audio = RtAudio_showWarnings E True (RtAudio_new E),
      format = RTAUDIO_SINT16,
      sampleRate = 44100,
      bufferFrames = 256,
      inParams = inputParms,
      outParams = outputParams,
      opts = options\<rparr>"

text \<open>
  The methods return what the C++ method returns, or the exception that left it, and
  the object as the call leaves it.
\<close>

definition openStream_call :: "'s Private \<Rightarrow> openStream_args" where
  "openStream_call p =
     \<lparr>arg_outputParameters = outParams p,
      arg_inputParameters = inParams p,
      arg_format = format p,
      arg_sampleRate = sampleRate p,
      arg_bufferFrames = bufferFrames p,
      arg_callback = nullptr,
      arg_userData = nullptr,
      arg_options = opts p,
      arg_errorCallback = addr_cb_rtaudio_error\<rparr>"

definition Private_open ::
  "'s RtAudio_api \<Rightarrow> 's Private \<Rightarrow> (RtAudioError + bool) \<times> 's Private" where
  "Private_open E p =
     (if RtAudio_isStreamOpen E (audio p) then (Inr True, p)
      else
        (case RtAudio_openStream E (openStream_call p) (audio p) of
           (Some e, A, frames) \<Rightarrow> (Inl e, p\<lparr>audio := A, bufferFrames := frames\<rparr>)
         | (None, A, frames) \<Rightarrow>
             (Inr (RtAudio_isStreamOpen E A), p\<lparr>audio := A, bufferFrames := frames\<rparr>)))"

definition Private_close ::
  "'s RtAudio_api \<Rightarrow> 's Private \<Rightarrow> (RtAudioError + unit) \<times> 's Private" where
  "Private_close E p =
     (if \<not> RtAudio_isStreamOpen E (audio p) then (Inr (), p)
      else
        (case RtAudio_closeStream E (audio p) of
           (Some e, A) \<Rightarrow> (Inl e, p\<lparr>audio := A\<rparr>)
         | (None, A) \<Rightarrow> (Inr (), p\<lparr>audio := A\<rparr>)))"

definition Private_start ::
  "'s RtAudio_api \<Rightarrow> 's Private \<Rightarrow> (RtAudioError + bool) \<times> 's Private" where
  "Private_start E p =
     (case Private_open E p of
        (Inl e, p1) \<Rightarrow> (Inl e, p1)
      | (Inr opened, p1) \<Rightarrow>
          if \<not> opened then (Inr False, p1)
          else
            (case RtAudio_startStream E (audio p1) of
               (Some e, A) \<Rightarrow> (Inl e, p1\<lparr>audio := A\<rparr>)
             | (None, A) \<Rightarrow> (Inr (RtAudio_isStreamRunning E A), p1\<lparr>audio := A\<rparr>)))"

definition Private_stop ::
  "'s RtAudio_api \<Rightarrow> 's Private \<Rightarrow> (RtAudioError + bool) \<times> 's Private" where
  "Private_stop E p =
     (if \<not> RtAudio_isStreamRunning E (audio p) then (Inr True, p)
      else
        (case RtAudio_stopStream E (audio p) of
           (Some e, A) \<Rightarrow> (Inl e, p\<lparr>audio := A\<rparr>)
         | (None, A) \<Rightarrow> (Inr (\<not> RtAudio_isStreamRunning E A), p\<lparr>audio := A\<rparr>)))"

text \<open>
  A \<open>StreamContext\<close> is a shared handle \<open>d\<close> to a \<open>Private\<close>; \<open>create\<close> returns the null
  handle through \<open>return nullptr\<close>.
\<close>

datatype 's StreamContext = StreamContext (StreamContext_d: "'s Private option")

text \<open>\<open>isOpen\<close> and \<open>isRunning\<close>, on the object behind a non-null handle.\<close>

definition StreamContext_isOpen :: "'s RtAudio_api \<Rightarrow> 's Private \<Rightarrow> bool" where
  "StreamContext_isOpen E p = RtAudio_isStreamOpen E (audio p)"

definition StreamContext_isRunning :: "'s RtAudio_api \<Rightarrow> 's Private \<Rightarrow> bool" where
  "StreamContext_isRunning E p = RtAudio_isStreamRunning E (audio p)"

text \<open>
  \<open>create\<close>. The two \<open>if\<close> blocks each query the local \<open>RtAudio audio\<close> for the device
  and build the parameters; both read \<open>info.inputChannels\<close>.
\<close>

definition static_cast_quint32 :: "c_int \<Rightarrow> unsigned_int" where
  "static_cast_quint32 i = i"

definition create_inParams ::
  "'s RtAudio_api \<Rightarrow> 's RtAudio \<Rightarrow> c_int \<Rightarrow> RtAudioError + StreamParameters option" where
  "create_inParams E A inputDevice =
     (if 0 \<le> sint inputDevice then
        (let devId = static_cast_quint32 inputDevice in
         case RtAudio_getDeviceInfo E A devId of
           Inl e \<Rightarrow> Inl e
         | Inr devInfo \<Rightarrow>
             Inr (Some \<lparr>deviceId = devId,
                        nChannels = (if di_inputChannels devInfo > 1 then 2 else 1),
                        firstChannel = 0\<rparr>))
      else Inr None)"

definition create_outParams ::
  "'s RtAudio_api \<Rightarrow> 's RtAudio \<Rightarrow> c_int \<Rightarrow> RtAudioError + StreamParameters option" where
  "create_outParams E A outputDevice =
     (if 0 \<le> sint outputDevice then
        (let devId = static_cast_quint32 outputDevice in
         case RtAudio_getDeviceInfo E A devId of
           Inl e \<Rightarrow> Inl e
         | Inr devInfo \<Rightarrow>
             Inr (Some \<lparr>deviceId = devId,
                        nChannels = (if di_inputChannels devInfo > 1 then 2 else 1),
                        firstChannel = 0\<rparr>))
      else Inr None)"

definition create ::
  "'s RtAudio_api \<Rightarrow> c_int \<Rightarrow> c_int \<Rightarrow> RtAudioError + 's StreamContext" where
  "create E inputDevice outputDevice =
     (if sint inputDevice < 0 \<and> sint outputDevice < 0 then Inr (StreamContext None)
      else
        (let A = RtAudio_new E in
         case create_inParams E A inputDevice of
           Inl e \<Rightarrow> Inl e
         | Inr inParams' \<Rightarrow>
             (case create_outParams E A outputDevice of
                Inl e \<Rightarrow> Inl e
              | Inr outParams' \<Rightarrow>
                  Inr (StreamContext (Some (Private_new E inParams' outParams' None))))))"


subsection \<open>A test double for the library\<close>

text \<open>
  A small stand-in for RtAudio over a fixed device table, to run the functions on
  concrete inputs. Its instance state is the stream state. \<open>getDeviceInfo\<close> throws on
  an index outside the table, as \<open>openStream\<close> does when a stream is already open; an
  open that asks a device for more channels than it has fails without an exception and
  leaves the stream closed.
\<close>

datatype StreamState = STREAM_STOPPED | STREAM_RUNNING | STREAM_CLOSED

definition supports ::
  "DeviceInfo list \<Rightarrow> (DeviceInfo \<Rightarrow> unsigned_int) \<Rightarrow> StreamParameters option \<Rightarrow> bool" where
  "supports devs channels params =
     (case params of
        None \<Rightarrow> True
      | Some sp \<Rightarrow>
          unat (deviceId sp) < length devs
          \<and> nChannels sp \<le> channels (devs ! unat (deviceId sp)))"

definition stub_openStream ::
  "DeviceInfo list \<Rightarrow> openStream_args \<Rightarrow> StreamState
     \<Rightarrow> RtAudioError option \<times> StreamState \<times> unsigned_int" where
  "stub_openStream devs args s =
     (if s \<noteq> STREAM_CLOSED then
        (Some (RtAudioError ''a stream is already open''), s, arg_bufferFrames args)
      else if supports devs di_outputChannels (arg_outputParameters args)
              \<and> supports devs di_inputChannels (arg_inputParameters args)
      then (None, STREAM_STOPPED, arg_bufferFrames args)
      else (None, STREAM_CLOSED, arg_bufferFrames args))"

definition stub :: "DeviceInfo list \<Rightarrow> StreamState RtAudio_api" where
  "stub devs =
     \<lparr>new_instance = STREAM_CLOSED,
      getDeviceCount = (\<lambda>s. of_nat (length devs)),
      getDeviceInfo = (\<lambda>s i. if unat i < length devs then Inr (devs ! unat i)
                              else Inl (RtAudioError ''device ID is invalid'')),
      showWarnings = (\<lambda>b s. s),
      isStreamOpen = (\<lambda>s. s \<noteq> STREAM_CLOSED),
      isStreamRunning = (\<lambda>s. s = STREAM_RUNNING),
      openStream = stub_openStream devs,
      closeStream = (\<lambda>s. (None, STREAM_CLOSED)),
      startStream = (\<lambda>s. (None, if s = STREAM_STOPPED then STREAM_RUNNING else s)),
      stopStream = (\<lambda>s. (None, if s = STREAM_RUNNING then STREAM_STOPPED else s))\<rparr>"

definition mic :: DeviceInfo where
  "mic = \<lparr>di_probed = True, di_name = ''mic'', di_outputChannels = 0,
          di_inputChannels = 1, di_duplexChannels = 0,
          di_isDefaultOutput = False, di_isDefaultInput = True\<rparr>"

definition speakers :: DeviceInfo where
  "speakers = \<lparr>di_probed = True, di_name = ''speakers'', di_outputChannels = 2,
               di_inputChannels = 0, di_duplexChannels = 0,
               di_isDefaultOutput = True, di_isDefaultInput = False\<rparr>"

definition headset :: DeviceInfo where
  "headset = \<lparr>di_probed = True, di_name = ''speakers'', di_outputChannels = 2,
              di_inputChannels = 2, di_duplexChannels = 2,
              di_isDefaultOutput = False, di_isDefaultInput = False\<rparr>"

text \<open>
  Two contexts over the devices \<open>mic\<close> and \<open>speakers\<close>: the one \<open>create(0, -1)\<close>
  returns, and the one \<open>create(1, -1)\<close> returns, which asks the speakers for an input
  channel they do not have, so that the test double refuses to open it.
\<close>

definition mic_context :: "StreamState Private" where
  "mic_context =
     Private_new (stub [mic, speakers])
       (Some \<lparr>deviceId = 0, nChannels = 1, firstChannel = 0\<rparr>) None None"

definition refused_context :: "StreamState Private" where
  "refused_context =
     Private_new (stub [mic, speakers])
       (Some \<lparr>deviceId = 1, nChannels = 1, firstChannel = 0\<rparr>) None None"

text \<open>
  A second test double: the same library, on hardware that only runs with buffers of 512
  frames. Its \<open>openStream\<close> leaves 512 in \<open>bufferFrames\<close>, as RtAudio does when the
  device cannot use the size asked for.
\<close>

definition stub512 :: "DeviceInfo list \<Rightarrow> StreamState RtAudio_api" where
  "stub512 devs =
     (stub devs)\<lparr>openStream :=
        (\<lambda>args s. case stub_openStream devs args s of (exn, s', frames) \<Rightarrow> (exn, s', 512))\<rparr>"

definition mic_context512 :: "StreamState Private" where
  "mic_context512 =
     Private_new (stub512 [mic, speakers])
       (Some \<lparr>deviceId = 0, nChannels = 1, firstChannel = 0\<rparr>) None None"

subsection \<open>The life of a context\<close>

text \<open>
  A context is used through its methods, one call after another; the object stays as a
  call leaves it, also when the call leaves by an exception. \<open>call_methods\<close> gives the
  object after a sequence of calls.
\<close>

datatype member_call = Open | Close | Start | Stop

fun call_method :: "'s RtAudio_api \<Rightarrow> member_call \<Rightarrow> 's Private \<Rightarrow> 's Private" where
  "call_method E Open p = snd (Private_open E p)"
| "call_method E Close p = snd (Private_close E p)"
| "call_method E Start p = snd (Private_start E p)"
| "call_method E Stop p = snd (Private_stop E p)"

fun call_methods :: "'s RtAudio_api \<Rightarrow> member_call list \<Rightarrow> 's Private \<Rightarrow> 's Private" where
  "call_methods E [] p = p"
| "call_methods E (m # ms) p = call_methods E ms (call_method E m p)"

section \<open>Properties\<close>

lemmas stub_simps =
  stub_def stub_openStream_def supports_def mic_def speakers_def headset_def

lemmas model_simps =
  Private_new_def RtAudio_new_def RtAudio_showWarnings_def RtAudio_isStreamOpen_def
  RtAudio_isStreamRunning_def RtAudio_openStream_def RtAudio_closeStream_def
  RtAudio_startStream_def RtAudio_stopStream_def RtAudio_getDeviceInfo_def
  openStream_call_def

lemma create_mic_context:
  "create (stub [mic, speakers]) 0 (- 1) = Inr (StreamContext (Some mic_context))"
  by (simp add: create_def create_inParams_def create_outParams_def mic_context_def
      RtAudio_getDeviceInfo_def RtAudio_new_def static_cast_quint32_def stub_def mic_def)

lemma create_refused_context:
  "create (stub [mic, speakers]) 1 (- 1) = Inr (StreamContext (Some refused_context))"
  by (simp add: create_def create_inParams_def create_outParams_def refused_context_def
      RtAudio_getDeviceInfo_def RtAudio_new_def static_cast_quint32_def stub_def speakers_def)

subsection \<open>Device accessors\<close>

text \<open>
  C10. \<open>isDefaultInput()\<close> returns what \<open>isDefaultOutput()\<close> returns: both read the
  default-output flag of the device info. The answer of \<open>isDefaultInput()\<close> does not
  depend on the default-input flag, and there is a device for which it differs from
  that flag.
\<close>

theorem isDefaultInput_is_isDefaultOutput:
  "Device_isDefaultInput dev = Device_isDefaultOutput dev
   \<and> Device_isDefaultInput dev = di_isDefaultOutput (info (Device_d dev))
   \<and> Device_isDefaultInput (Device \<lparr>info = devInfo\<lparr>di_isDefaultInput := b\<rparr>\<rparr>)
       = Device_isDefaultInput (Device \<lparr>info = devInfo\<rparr>)
   \<and> (\<exists>dev'. Device_isDefaultInput dev' \<noteq> di_isDefaultInput (info (Device_d dev')))"
proof -
  have "Device_isDefaultInput (Device \<lparr>info = mic\<rparr>)
          \<noteq> di_isDefaultInput (info (Device_d (Device \<lparr>info = mic\<rparr>)))"
    by (simp add: Device_isDefaultInput_def mic_def)
  then have "\<exists>dev'. Device_isDefaultInput dev' \<noteq> di_isDefaultInput (info (Device_d dev'))"
    by blast
  then show ?thesis
    by (simp add: Device_isDefaultInput_def Device_isDefaultOutput_def)
qed

subsection \<open>Enumerating devices\<close>

text \<open>
  The loop index is below the device count whenever the body runs, so \<open>i++\<close> does not
  wrap around.
\<close>

lemma word_succ_le:
  fixes i :: "32 word"
  assumes "i < c"
  shows "i \<le> i + 1" and "i + 1 \<le> c" and "unat (i + 1) = Suc (unat i)" and "i \<noteq> i + 1"
  using assms by unat_arith+

lemma sint_nonneg_index:
  fixes k :: "32 word"
  assumes "k \<le> 0x7FFFFFFF"
  shows "sint k = int (unat k)"
proof -
  from assms have small: "uint k \<le> 0x7FFFFFFF"
    by (simp add: word_le_def)
  have "sint k = signed_take_bit 31 (uint k)"
    by (simp add: sint_uint)
  also have "\<dots> = uint k"
  proof (rule signed_take_bit_int_eq_self)
    have "(- (2 ^ 31) :: int) \<le> 0"
      by simp
    also have "0 \<le> uint k"
      by simp
    finally show "- (2 ^ 31) \<le> uint k" .
    from small show "uint k < 2 ^ 31"
      by simp
  qed
  finally show ?thesis
    by simp
qed

lemma of_nat_less_count:
  fixes c :: "32 word"
  assumes "n < unat c"
  shows "unat (of_nat n :: 32 word) = n" and "of_nat n < c"
proof -
  from assms show eq: "unat (of_nat n :: 32 word) = n"
    by (metis le_unat_uoi order_less_imp_le)
  with assms show "of_nat n < c"
    by (simp add: word_less_nat_alt)
qed

text \<open>
  \<open>find_loop\<close> from index \<open>i\<close>: it returns the first index at or after \<open>i\<close> whose name
  matches, \<open>-1\<close> when there is none, and leaves by the exception of the first device
  query that throws before a match.
\<close>

lemma find_loop_found:
  assumes "i \<le> k" and "k < getDeviceCount E a"
    and "getDeviceInfo E a k = Inr devInfo" and "di_name devInfo = name"
    and "\<forall>j. i \<le> j \<and> j < k \<longrightarrow>
           (\<exists>other. getDeviceInfo E a j = Inr other \<and> di_name other \<noteq> name)"
  shows "find_loop E a name i = Inr (static_cast_int k)"
  using assms
proof (induction E a name i rule: find_loop.induct)
  case (1 E a name i)
  from "1.prems" have less: "i < getDeviceCount E a"
    by simp
  show ?case
  proof (cases "i = k")
    case True
    with "1.prems" less show ?thesis
      by (simp add: find_loop.simps [of E a name k])
  next
    case False
    with "1.prems" have ik: "i < k"
      by simp
    with "1.prems" obtain other where other: "getDeviceInfo E a i = Inr other"
      and differs: "di_name other \<noteq> name"
      by blast
    from ik have step: "i + 1 \<le> k" and up: "i \<le> i + 1"
      by (rule word_succ_le)+
    have rest: "\<forall>j. i + 1 \<le> j \<and> j < k \<longrightarrow>
           (\<exists>other. getDeviceInfo E a j = Inr other \<and> di_name other \<noteq> name)"
      using "1.prems"(5) up by (meson order_trans)
    have "find_loop E a name (i + 1) = Inr (static_cast_int k)"
      using "1.IH" [OF less other] differs step "1.prems"(2,3,4) rest by simp
    with less other differs show ?thesis
      by (simp add: find_loop.simps [of E a name i])
  qed
qed

lemma find_loop_absent:
  assumes "\<forall>j. i \<le> j \<and> j < getDeviceCount E a \<longrightarrow>
           (\<exists>other. getDeviceInfo E a j = Inr other \<and> di_name other \<noteq> name)"
  shows "find_loop E a name i = Inr (- 1)"
  using assms
proof (induction E a name i rule: find_loop.induct)
  case (1 E a name i)
  show ?case
  proof (cases "i < getDeviceCount E a")
    case False
    then show ?thesis
      by (simp add: find_loop.simps [of E a name i])
  next
    case less: True
    with "1.prems" obtain other where other: "getDeviceInfo E a i = Inr other"
      and differs: "di_name other \<noteq> name"
      by blast
    from less have up: "i \<le> i + 1"
      by (rule word_succ_le)
    have rest: "\<forall>j. i + 1 \<le> j \<and> j < getDeviceCount E a \<longrightarrow>
           (\<exists>other. getDeviceInfo E a j = Inr other \<and> di_name other \<noteq> name)"
      using "1.prems" up by (meson order_trans)
    have "find_loop E a name (i + 1) = Inr (- 1)"
      using "1.IH" [OF less other] differs rest by simp
    with less other differs show ?thesis
      by (simp add: find_loop.simps [of E a name i])
  qed
qed


lemma find_loop_throws:
  assumes "i \<le> k" and "k < getDeviceCount E a" and "getDeviceInfo E a k = Inl e"
    and "\<forall>j. i \<le> j \<and> j < k \<longrightarrow>
           (\<exists>other. getDeviceInfo E a j = Inr other \<and> di_name other \<noteq> name)"
  shows "find_loop E a name i = Inl e"
  using assms
proof (induction E a name i rule: find_loop.induct)
  case (1 E a name i)
  from "1.prems" have less: "i < getDeviceCount E a"
    by simp
  show ?case
  proof (cases "i = k")
    case True
    with "1.prems" less show ?thesis
      by (simp add: find_loop.simps [of E a name k])
  next
    case False
    with "1.prems" have ik: "i < k"
      by simp
    with "1.prems" obtain other where other: "getDeviceInfo E a i = Inr other"
      and differs: "di_name other \<noteq> name"
      by blast
    from ik have step: "i + 1 \<le> k" and up: "i \<le> i + 1"
      by (rule word_succ_le)+
    have rest: "\<forall>j. i + 1 \<le> j \<and> j < k \<longrightarrow>
           (\<exists>other. getDeviceInfo E a j = Inr other \<and> di_name other \<noteq> name)"
      using "1.prems"(4) up by (meson order_trans)
    have "find_loop E a name (i + 1) = Inl e"
      using "1.IH" [OF less other] differs step "1.prems"(2,3) rest by simp
    with less other differs show ?thesis
      by (simp add: find_loop.simps [of E a name i])
  qed
qed

text \<open>
  C6. \<open>Device::find(deviceName)\<close> returns the index \<open>k\<close> of the first device whose name
  equals \<open>deviceName\<close>: the devices before \<open>k\<close> have other names, so with duplicates the
  first match wins. The value returned is \<open>k\<close> converted to \<open>int\<close>, which is never \<open>-1\<close>
  and is the number \<open>k\<close> itself for every index up to \<open>INT_MAX\<close>. When no device has the
  name, it returns \<open>-1\<close>. The device queries are those of the library, taken to return for
  the indices the loop visits.
\<close>

theorem Device_find_first_match:
  "(k < getDeviceCount E (new_instance E)
      \<and> getDeviceInfo E (new_instance E) k = Inr devInfo \<and> di_name devInfo = deviceName
      \<and> (\<forall>j. j < k \<longrightarrow> (\<exists>other. getDeviceInfo E (new_instance E) j = Inr other
                                  \<and> di_name other \<noteq> deviceName))
    \<longrightarrow> Device_find E deviceName = Inr (static_cast_int k)
        \<and> static_cast_int k \<noteq> - 1
        \<and> (k \<le> 0x7FFFFFFF \<longrightarrow> sint (static_cast_int k) = int (unat k)))
   \<and> ((\<forall>j. j < getDeviceCount E (new_instance E) \<longrightarrow>
           (\<exists>other. getDeviceInfo E (new_instance E) j = Inr other \<and> di_name other \<noteq> deviceName))
    \<longrightarrow> Device_find E deviceName = Inr (- 1) \<and> sint (- 1 :: c_int) = - 1)"
proof (intro conjI impI)
  assume found: "k < getDeviceCount E (new_instance E)
      \<and> getDeviceInfo E (new_instance E) k = Inr devInfo \<and> di_name devInfo = deviceName
      \<and> (\<forall>j. j < k \<longrightarrow> (\<exists>other. getDeviceInfo E (new_instance E) j = Inr other
                                  \<and> di_name other \<noteq> deviceName))"
  then show "Device_find E deviceName = Inr (static_cast_int k)"
    unfolding Device_find_def by (intro find_loop_found [where devInfo = devInfo]) auto
  from found have "k < getDeviceCount E (new_instance E)"
    by simp
  then have "k \<noteq> - 1"
    using word_n1_ge [of "getDeviceCount E (new_instance E)"] by auto
  then show "static_cast_int k \<noteq> - 1"
    by (simp add: static_cast_int_def)
next
  assume "k \<le> 0x7FFFFFFF"
  then show "sint (static_cast_int k) = int (unat k)"
    unfolding static_cast_int_def by (rule sint_nonneg_index)
next
  assume "\<forall>j. j < getDeviceCount E (new_instance E) \<longrightarrow>
           (\<exists>other. getDeviceInfo E (new_instance E) j = Inr other \<and> di_name other \<noteq> deviceName)"
  then show "Device_find E deviceName = Inr (- 1)"
    unfolding Device_find_def by (intro find_loop_absent) auto
next
  show "sint (- 1 :: c_int) = - 1"
    by simp
qed

text \<open>
  On the test double with the devices \<open>mic\<close>, \<open>speakers\<close> and \<open>headset\<close>, the last two
  both named \<open>speakers\<close>: the name is found at index 1, and an absent name gives \<open>-1\<close>.
\<close>

theorem Device_find_first_match_witness:
  "Device_find (stub [mic, speakers, headset]) ''speakers'' = Inr 1
   \<and> di_name speakers = ''speakers'' \<and> di_name headset = ''speakers''
   \<and> sint (1 :: c_int) = 1
   \<and> Device_find (stub [mic, speakers, headset]) ''line in'' = Inr (- 1)"
proof -
  let ?E = "stub [mic, speakers, headset]"
  have count: "getDeviceCount ?E (new_instance ?E) = 3"
    by (simp add: stub_def)
  have at1: "getDeviceInfo ?E (new_instance ?E) 1 = Inr speakers"
    by (simp add: stub_def)
  have before: "\<forall>j. j < 1 \<longrightarrow> (\<exists>other. getDeviceInfo ?E (new_instance ?E) j = Inr other
                                  \<and> di_name other \<noteq> ''speakers'')"
    by (simp add: stub_def mic_def)
  from Device_find_first_match [of 1 ?E speakers "''speakers''"] count at1 before
  have found: "Device_find ?E ''speakers'' = Inr 1" and as_int: "sint (1 :: c_int) = 1"
    by (simp_all add: speakers_def static_cast_int_def)
  have none: "\<forall>j. j < getDeviceCount ?E (new_instance ?E) \<longrightarrow>
           (\<exists>other. getDeviceInfo ?E (new_instance ?E) j = Inr other \<and> di_name other \<noteq> ''line in'')"
  proof (intro allI impI)
    fix j :: unsigned_int
    assume "j < getDeviceCount ?E (new_instance ?E)"
    with count have "unat j < 3"
      by (simp add: word_less_nat_alt)
    then have "unat j = 0 \<or> unat j = 1 \<or> unat j = 2"
      by arith
    then show "\<exists>other. getDeviceInfo ?E (new_instance ?E) j = Inr other \<and> di_name other \<noteq> ''line in''"
      by (auto simp: stub_simps)
  qed
  with Device_find_first_match [of _ ?E _ "''line in''"]
  have absent: "Device_find ?E ''line in'' = Inr (- 1)"
    by blast
  from found as_int absent show ?thesis
    by (simp add: speakers_def headset_def)
qed

text \<open>
  \<open>availableDevices_loop\<close> from index \<open>i\<close> appends one \<open>Device\<close> for each index from \<open>i\<close> up
  to the device count, in order, and leaves by the exception of the first device query
  that throws.
\<close>

lemma availableDevices_loop_all:
  assumes "\<forall>j. i \<le> j \<and> j < getDeviceCount E a \<longrightarrow> (\<exists>devInfo. getDeviceInfo E a j = Inr devInfo)"
  shows "availableDevices_loop E a i devices =
           Inr (devices @ map (\<lambda>n. Device \<lparr>info = projr (getDeviceInfo E a (of_nat n))\<rparr>)
                              [unat i..<unat (getDeviceCount E a)])"
  using assms
proof (induction E a i devices rule: availableDevices_loop.induct)
  case (1 E a i devices)
  show ?case
  proof (cases "i < getDeviceCount E a")
    case False
    then have "unat (getDeviceCount E a) \<le> unat i"
      by (simp add: word_less_nat_alt)
    with False show ?thesis
      by (simp add: availableDevices_loop.simps [of E a i devices])
  next
    case less: True
    with "1.prems" obtain devInfo where devInfo: "getDeviceInfo E a i = Inr devInfo"
      by blast
    from less have up: "i \<le> i + 1" and suc: "unat (i + 1) = Suc (unat i)"
      by (rule word_succ_le)+
    from less have lt: "unat i < unat (getDeviceCount E a)"
      by (simp add: word_less_nat_alt)
    have rest: "\<forall>j. i + 1 \<le> j \<and> j < getDeviceCount E a \<longrightarrow>
                  (\<exists>devInfo. getDeviceInfo E a j = Inr devInfo)"
      using "1.prems" up by (meson order_trans)
    have "availableDevices_loop E a (i + 1) (devices @ [Device \<lparr>info = devInfo\<rparr>]) =
            Inr ((devices @ [Device \<lparr>info = devInfo\<rparr>])
                 @ map (\<lambda>n. Device \<lparr>info = projr (getDeviceInfo E a (of_nat n))\<rparr>)
                       [unat (i + 1)..<unat (getDeviceCount E a)])"
      using "1.IH" [OF less devInfo] rest by simp
    with less devInfo suc lt show ?thesis
      by (simp add: availableDevices_loop.simps [of E a i devices] upt_conv_Cons)
  qed
qed

lemma availableDevices_loop_throws:
  assumes "i \<le> k" and "k < getDeviceCount E a" and "getDeviceInfo E a k = Inl e"
    and "\<forall>j. i \<le> j \<and> j < k \<longrightarrow> (\<exists>devInfo. getDeviceInfo E a j = Inr devInfo)"
  shows "availableDevices_loop E a i devices = Inl e"
  using assms
proof (induction E a i devices rule: availableDevices_loop.induct)
  case (1 E a i devices)
  from "1.prems" have less: "i < getDeviceCount E a"
    by simp
  show ?case
  proof (cases "i = k")
    case True
    with "1.prems" less show ?thesis
      by (simp add: availableDevices_loop.simps [of E a k devices])
  next
    case False
    with "1.prems" have ik: "i < k"
      by simp
    with "1.prems" obtain devInfo where devInfo: "getDeviceInfo E a i = Inr devInfo"
      by blast
    from ik have step: "i + 1 \<le> k" and up: "i \<le> i + 1"
      by (rule word_succ_le)+
    have rest: "\<forall>j. i + 1 \<le> j \<and> j < k \<longrightarrow> (\<exists>devInfo. getDeviceInfo E a j = Inr devInfo)"
      using "1.prems"(4) up by (meson order_trans)
    have "availableDevices_loop E a (i + 1) (devices @ [Device \<lparr>info = devInfo\<rparr>]) = Inl e"
      using "1.IH" [OF less devInfo] step "1.prems"(2,3) rest by simp
    with less devInfo show ?thesis
      by (simp add: availableDevices_loop.simps [of E a i devices])
  qed
qed

text \<open>
  C7. \<open>Device::availableDevices()\<close> returns a list with one \<open>Device\<close> for each index below
  the device count the library reports, in index order: the list is as long as the count,
  and its \<open>n\<close>-th element wraps the device info the library returns for index \<open>n\<close>. The
  device queries are those of the library, taken to return for the indices below the
  count.
\<close>

theorem availableDevices_one_per_index:
  "(\<forall>j. j < getDeviceCount E (new_instance E) \<longrightarrow>
          (\<exists>devInfo. getDeviceInfo E (new_instance E) j = Inr devInfo))
   \<longrightarrow> (\<exists>devices. Device_availableDevices E = Inr devices
          \<and> length devices = unat (getDeviceCount E (new_instance E))
          \<and> (\<forall>n. n < length devices \<longrightarrow>
                getDeviceInfo E (new_instance E) (of_nat n) = Inr (info (Device_d (devices ! n)))))"
proof
  let ?a = "new_instance E"
  let ?f = "\<lambda>n. Device \<lparr>info = projr (getDeviceInfo E ?a (of_nat n))\<rparr>"
  let ?devices = "map ?f [0..<unat (getDeviceCount E ?a)]"
  assume all: "\<forall>j. j < getDeviceCount E ?a \<longrightarrow> (\<exists>devInfo. getDeviceInfo E ?a j = Inr devInfo)"
  then have result: "Device_availableDevices E = Inr ?devices"
    using availableDevices_loop_all [of 0 E ?a "[]"]
    by (simp add: Device_availableDevices_def del: availableDevices_loop.simps)
  have each: "getDeviceInfo E ?a (of_nat n) = Inr (info (Device_d (?devices ! n)))"
    if "n < length ?devices" for n
  proof -
    from that have n: "n < unat (getDeviceCount E ?a)"
      by simp
    then have "(of_nat n :: unsigned_int) < getDeviceCount E ?a"
      by (rule of_nat_less_count)
    with all obtain devInfo where "getDeviceInfo E ?a (of_nat n) = Inr devInfo"
      by blast
    with n show ?thesis
      by simp
  qed
  from result each
  show "\<exists>devices. Device_availableDevices E = Inr devices
          \<and> length devices = unat (getDeviceCount E ?a)
          \<and> (\<forall>n. n < length devices \<longrightarrow>
                getDeviceInfo E ?a (of_nat n) = Inr (info (Device_d (devices ! n))))"
    by (intro exI [of _ ?devices]) simp
qed

text \<open>On the test double with three devices, the list holds the three in order.\<close>

lemma Device_wraps:
  "info (Device_d dev) = devInfo \<Longrightarrow> dev = Device \<lparr>info = devInfo\<rparr>"
  by (cases dev) auto

theorem availableDevices_one_per_index_witness:
  "Device_availableDevices (stub [mic, speakers, headset])
     = Inr [Device \<lparr>info = mic\<rparr>, Device \<lparr>info = speakers\<rparr>, Device \<lparr>info = headset\<rparr>]"
proof -
  let ?E = "stub [mic, speakers, headset]"
  have count: "getDeviceCount ?E (new_instance ?E) = 3"
    by (simp add: stub_def)
  have all: "\<forall>j. j < getDeviceCount ?E (new_instance ?E) \<longrightarrow>
               (\<exists>devInfo. getDeviceInfo ?E (new_instance ?E) j = Inr devInfo)"
    by (simp add: stub_def word_less_nat_alt)
  with availableDevices_one_per_index [of ?E] count
  obtain devices where result: "Device_availableDevices ?E = Inr devices"
    and len: "length devices = 3"
    and each: "\<forall>n. n < length devices \<longrightarrow>
                 getDeviceInfo ?E (new_instance ?E) (of_nat n) = Inr (info (Device_d (devices ! n)))"
    by auto
  from len obtain x y z where shape: "devices = [x, y, z]"
    by (auto simp: numeral_3_eq_3 length_Suc_conv)
  have "info (Device_d x) = mic" and "info (Device_d y) = speakers"
    and "info (Device_d z) = headset"
    using each [rule_format, of 0] each [rule_format, of 1] each [rule_format, of 2] shape
    by (simp_all add: stub_def)
  with shape have "devices = [Device \<lparr>info = mic\<rparr>, Device \<lparr>info = speakers\<rparr>, Device \<lparr>info = headset\<rparr>]"
    by (simp add: Device_wraps)
  with result show ?thesis
    by simp
qed

subsection \<open>create\<close>

text \<open>
  What \<open>create\<close> stores as channel count, in either direction: 2 when the device
  reports more than one input channel, 1 otherwise; so always 1 or 2.
\<close>

lemma create_inParams_nChannels:
  assumes "create_inParams E A inputDevice = Inr (Some sp)"
  shows "\<exists>devInfo. getDeviceInfo E (rt_state A) inputDevice = Inr devInfo
           \<and> nChannels sp = (if 1 < di_inputChannels devInfo then 2 else 1)
           \<and> deviceId sp = inputDevice \<and> firstChannel sp = 0"
proof (cases "getDeviceInfo E (rt_state A) inputDevice")
  case (Inl e)
  with assms show ?thesis
    by (simp add: create_inParams_def RtAudio_getDeviceInfo_def static_cast_quint32_def
        split: if_splits)
next
  case (Inr devInfo)
  with assms show ?thesis
    by (simp add: create_inParams_def RtAudio_getDeviceInfo_def static_cast_quint32_def
        split: if_splits) auto
qed

lemma create_outParams_nChannels:
  assumes "create_outParams E A outputDevice = Inr (Some sp)"
  shows "\<exists>devInfo. getDeviceInfo E (rt_state A) outputDevice = Inr devInfo
           \<and> nChannels sp = (if 1 < di_inputChannels devInfo then 2 else 1)
           \<and> deviceId sp = outputDevice \<and> firstChannel sp = 0"
proof (cases "getDeviceInfo E (rt_state A) outputDevice")
  case (Inl e)
  with assms show ?thesis
    by (simp add: create_outParams_def RtAudio_getDeviceInfo_def static_cast_quint32_def
        split: if_splits)
next
  case (Inr devInfo)
  with assms show ?thesis
    by (simp add: create_outParams_def RtAudio_getDeviceInfo_def static_cast_quint32_def
        split: if_splits) auto
qed

lemma create_params:
  assumes "create E inputDevice outputDevice = Inr (StreamContext (Some p))"
  shows "create_inParams E (RtAudio_new E) inputDevice = Inr (inParams p)"
    and "create_outParams E (RtAudio_new E) outputDevice = Inr (outParams p)"
  using assms
  by (auto simp: create_def Let_def Private_new_def split: if_splits sum.splits)

lemma create_nChannels:
  assumes "create E inputDevice outputDevice = Inr (StreamContext (Some p))"
  shows "inParams p = Some sp \<Longrightarrow>
           \<exists>devInfo. getDeviceInfo E (new_instance E) inputDevice = Inr devInfo
              \<and> nChannels sp = (if 1 < di_inputChannels devInfo then 2 else 1)"
    and "outParams p = Some sp \<Longrightarrow>
           \<exists>devInfo. getDeviceInfo E (new_instance E) outputDevice = Inr devInfo
              \<and> nChannels sp = (if 1 < di_inputChannels devInfo then 2 else 1)"
proof -
  assume "inParams p = Some sp"
  with create_params(1) [OF assms]
  have "create_inParams E (RtAudio_new E) inputDevice = Inr (Some sp)"
    by simp
  from create_inParams_nChannels [OF this]
  show "\<exists>devInfo. getDeviceInfo E (new_instance E) inputDevice = Inr devInfo
              \<and> nChannels sp = (if 1 < di_inputChannels devInfo then 2 else 1)"
    by (auto simp: RtAudio_new_def)
next
  assume "outParams p = Some sp"
  with create_params(2) [OF assms]
  have "create_outParams E (RtAudio_new E) outputDevice = Inr (Some sp)"
    by simp
  from create_outParams_nChannels [OF this]
  show "\<exists>devInfo. getDeviceInfo E (new_instance E) outputDevice = Inr devInfo
              \<and> nChannels sp = (if 1 < di_inputChannels devInfo then 2 else 1)"
    by (auto simp: RtAudio_new_def)
qed

lemma create_nChannels_at_most_2:
  assumes "create E inputDevice outputDevice = Inr (StreamContext (Some p))"
    and "inParams p = Some sp \<or> outParams p = Some sp"
  shows "nChannels sp = 1 \<or> nChannels sp = 2"
  using create_nChannels [OF assms(1), of sp] assms(2) by auto

text \<open>
  C1, at a failing input. With the devices \<open>mic\<close> (index 0) and \<open>speakers\<close> (index 1,
  two output channels, no input channel), \<open>create(-1, 1)\<close> returns a context whose
  output parameters ask for one channel, although the device reports two channels for
  output: the output block reads \<open>info.inputChannels\<close>.
\<close>

theorem create_output_nChannels_reads_inputChannels:
  "di_outputChannels speakers = 2
   \<and> (\<exists>p. create (stub [mic, speakers]) (- 1) 1 = Inr (StreamContext (Some p))
          \<and> inParams p = None
          \<and> outParams p = Some \<lparr>deviceId = 1, nChannels = 1, firstChannel = 0\<rparr>)"
  by (simp add: create_def create_inParams_def create_outParams_def Private_new_def
      RtAudio_new_def RtAudio_getDeviceInfo_def RtAudio_showWarnings_def
      static_cast_quint32_def stub_def speakers_def)

text \<open>
  C2. \<open>create\<close> returns the null context exactly when both indices are negative.
  A context it returns otherwise has input parameters exactly when the input index is
  non-negative and output parameters exactly when the output index is non-negative, each
  naming the index it was given; so it references at least one device, and with one
  index negative it carries parameters for the other direction only. \<open>create\<close> returns
  (rather than leaving by an exception of the library) exactly when each device query it
  makes returns.
\<close>

theorem create_null_iff_both_negative:
  "(create E inputDevice outputDevice = Inr (StreamContext None)
      \<longleftrightarrow> sint inputDevice < 0 \<and> sint outputDevice < 0)
   \<and> (create E inputDevice outputDevice = Inr (StreamContext (Some p)) \<longrightarrow>
        (inParams p \<noteq> None \<or> outParams p \<noteq> None)
        \<and> (inParams p = None \<longleftrightarrow> sint inputDevice < 0)
        \<and> (outParams p = None \<longleftrightarrow> sint outputDevice < 0)
        \<and> (\<forall>sp. inParams p = Some sp \<longrightarrow> deviceId sp = inputDevice)
        \<and> (\<forall>sp. outParams p = Some sp \<longrightarrow> deviceId sp = outputDevice))
   \<and> ((\<exists>ctx. create E inputDevice outputDevice = Inr ctx) \<longleftrightarrow>
        (0 \<le> sint inputDevice \<longrightarrow> (\<exists>devInfo. getDeviceInfo E (new_instance E) inputDevice = Inr devInfo))
        \<and> (0 \<le> sint outputDevice \<longrightarrow> (\<exists>devInfo. getDeviceInfo E (new_instance E) outputDevice = Inr devInfo)))"
  by (auto simp: create_def create_inParams_def create_outParams_def Private_new_def
      RtAudio_new_def RtAudio_getDeviceInfo_def static_cast_quint32_def Let_def
      split: if_splits sum.splits)

text \<open>
  The three cases on the test double: \<open>create(-1, -1)\<close>, \<open>create(0, -1)\<close> and
  \<open>create(-1, 1)\<close>.
\<close>

theorem create_null_iff_both_negative_witness:
  "create (stub [mic, speakers]) (- 1) (- 1) = Inr (StreamContext None)
   \<and> (\<exists>p. create (stub [mic, speakers]) 0 (- 1) = Inr (StreamContext (Some p))
          \<and> inParams p \<noteq> None \<and> outParams p = None)
   \<and> (\<exists>p. create (stub [mic, speakers]) (- 1) 1 = Inr (StreamContext (Some p))
          \<and> inParams p = None \<and> outParams p \<noteq> None)"
proof -
  let ?E = "stub [mic, speakers]"
  have none: "create ?E (- 1) (- 1) = Inr (StreamContext None)"
    using create_null_iff_both_negative [of ?E "- 1" "- 1"] by simp
  have "\<exists>ctx. create ?E 0 (- 1) = Inr ctx"
    using create_null_iff_both_negative [of ?E 0 "- 1"] by (simp add: stub_def)
  then obtain ctx where ctx: "create ?E 0 (- 1) = Inr ctx" ..
  from create_null_iff_both_negative [THEN conjunct1, of ?E 0 "- 1"] ctx
  obtain p where p: "ctx = StreamContext (Some p)"
    by (cases ctx) auto
  from create_null_iff_both_negative [of ?E 0 "- 1" p] ctx p
  have inp: "inParams p \<noteq> None \<and> outParams p = None"
    by simp
  have "\<exists>ctx. create ?E (- 1) 1 = Inr ctx"
    using create_null_iff_both_negative [of ?E "- 1" 1] by (simp add: stub_def)
  then obtain ctx' where ctx': "create ?E (- 1) 1 = Inr ctx'" ..
  from create_null_iff_both_negative [THEN conjunct1, of ?E "- 1" 1] ctx'
  obtain q where q: "ctx' = StreamContext (Some q)"
    by (cases ctx') auto
  from create_null_iff_both_negative [of ?E "- 1" 1 q] ctx' q
  have outp: "inParams q = None \<and> outParams q \<noteq> None"
    by simp
  from none ctx p inp ctx' q outp show ?thesis by blast
qed

subsection \<open>The stream methods\<close>

text \<open>The methods on the two contexts of the test double.\<close>

lemma open_mic_context:
  "Private_open (stub [mic, speakers]) mic_context =
     (Inr True,
      mic_context\<lparr>audio := \<lparr>rt_state = STREAM_STOPPED,
                              rt_calls = [ShowWarnings True,
                                          OpenStream (openStream_call mic_context)]\<rparr>\<rparr>)"
  by (simp add: Private_open_def mic_context_def model_simps stub_simps)

lemma open_refused_context:
  "Private_open (stub [mic, speakers]) refused_context =
     (Inr False,
      refused_context\<lparr>audio := \<lparr>rt_state = STREAM_CLOSED,
                                  rt_calls = [ShowWarnings True,
                                              OpenStream (openStream_call refused_context)]\<rparr>\<rparr>)"
  by (simp add: Private_open_def refused_context_def model_simps stub_simps)

lemma start_mic_context:
  "Private_start (stub [mic, speakers]) mic_context =
     (Inr True,
      mic_context\<lparr>audio := \<lparr>rt_state = STREAM_RUNNING,
                              rt_calls = [ShowWarnings True,
                                          OpenStream (openStream_call mic_context),
                                          StartStream]\<rparr>\<rparr>)"
  by (simp add: Private_start_def open_mic_context)
     (simp add: mic_context_def model_simps stub_simps)

text \<open>
  What a method leaves untouched: only \<open>open()\<close> (also inside \<open>start()\<close>) writes
  \<open>bufferFrames\<close>, and only when it calls \<open>openStream\<close>; no method writes the format, the
  rate, the parameters or the options; the list of library calls only grows.
\<close>

lemma Private_open_frame:
  assumes "Private_open E p = (r, p')"
  shows "format p' = format p" and "sampleRate p' = sampleRate p"
    and "inParams p' = inParams p" and "outParams p' = outParams p" and "opts p' = opts p"
    and "p' = p \<or> rt_calls (audio p') = rt_calls (audio p) @ [OpenStream (openStream_call p)]"
  using assms
  by (auto simp: Private_open_def RtAudio_openStream_def
      split: if_splits prod.splits option.splits)

lemma Private_close_frame:
  assumes "Private_close E p = (r, p')"
  shows "p' = p\<lparr>audio := audio p'\<rparr>"
    and "p' = p \<or> rt_calls (audio p') = rt_calls (audio p) @ [CloseStream]"
  using assms
  by (auto simp: Private_close_def RtAudio_closeStream_def
      split: if_splits prod.splits option.splits)

lemma Private_stop_frame:
  assumes "Private_stop E p = (r, p')"
  shows "p' = p\<lparr>audio := audio p'\<rparr>"
    and "p' = p \<or> rt_calls (audio p') = rt_calls (audio p) @ [StopStream]"
  using assms
  by (auto simp: Private_stop_def RtAudio_stopStream_def
      split: if_splits prod.splits option.splits)

lemma Private_start_frame:
  assumes "Private_open E p = (ro, po)" and "Private_start E p = (r, p')"
  shows "p' = po\<lparr>audio := audio p'\<rparr>"
    and "p' = po \<or> rt_calls (audio p') = rt_calls (audio po) @ [StartStream]"
  using assms
  by (auto simp: Private_start_def RtAudio_startStream_def
      split: if_splits prod.splits option.splits sum.splits)

lemma call_method_step:
  "format (call_method E m p) = format p
   \<and> sampleRate (call_method E m p) = sampleRate p
   \<and> inParams (call_method E m p) = inParams p
   \<and> outParams (call_method E m p) = outParams p
   \<and> opts (call_method E m p) = opts p
   \<and> (\<exists>cs. rt_calls (audio (call_method E m p)) = rt_calls (audio p) @ cs)
   \<and> (bufferFrames (call_method E m p) = bufferFrames p
        \<or> (\<exists>args. OpenStream args \<in> set (rt_calls (audio (call_method E m p)))))"
proof (cases m)
  case Open
  obtain r p' where run: "Private_open E p = (r, p')"
    by (cases "Private_open E p")
  from Private_open_frame [OF run] run Open show ?thesis
    by auto
next
  case Close
  obtain r p' where run: "Private_close E p = (r, p')"
    by (cases "Private_close E p")
  have same: "format p' = format p" "sampleRate p' = sampleRate p" "inParams p' = inParams p"
    "outParams p' = outParams p" "opts p' = opts p" "bufferFrames p' = bufferFrames p"
    using Private_close_frame(1) [OF run]
    by (metis Private.select_convs Private.update_convs(1) Private.surjective)+
  from Private_close_frame(2) [OF run]
  have ext: "\<exists>cs. rt_calls (audio p') = rt_calls (audio p) @ cs"
    by auto
  from same ext run Close show ?thesis
    by simp
next
  case Start
  obtain ro po where opn: "Private_open E p = (ro, po)"
    by (cases "Private_open E p")
  obtain r p' where run: "Private_start E p = (r, p')"
    by (cases "Private_start E p")
  have same: "format p' = format po" "sampleRate p' = sampleRate po" "inParams p' = inParams po"
    "outParams p' = outParams po" "opts p' = opts po" "bufferFrames p' = bufferFrames po"
    using Private_start_frame(1) [OF opn run]
    by (metis Private.select_convs Private.update_convs(1) Private.surjective)+
  from Private_start_frame(2) [OF opn run]
  have ext: "\<exists>cs. rt_calls (audio p') = rt_calls (audio po) @ cs"
    by auto
  from Private_open_frame [OF opn] same ext run Start show ?thesis
    by auto
next
  case Stop
  obtain r p' where run: "Private_stop E p = (r, p')"
    by (cases "Private_stop E p")
  have same: "format p' = format p" "sampleRate p' = sampleRate p" "inParams p' = inParams p"
    "outParams p' = outParams p" "opts p' = opts p" "bufferFrames p' = bufferFrames p"
    using Private_stop_frame(1) [OF run]
    by (metis Private.select_convs Private.update_convs(1) Private.surjective)+
  from Private_stop_frame(2) [OF run]
  have ext: "\<exists>cs. rt_calls (audio p') = rt_calls (audio p) @ cs"
    by auto
  from same ext run Stop show ?thesis
    by simp
qed


lemma call_methods_keep:
  "format (call_methods E ms p) = format p
   \<and> sampleRate (call_methods E ms p) = sampleRate p
   \<and> inParams (call_methods E ms p) = inParams p
   \<and> outParams (call_methods E ms p) = outParams p
   \<and> opts (call_methods E ms p) = opts p
   \<and> (\<exists>cs. rt_calls (audio (call_methods E ms p)) = rt_calls (audio p) @ cs)
   \<and> (bufferFrames (call_methods E ms p) = bufferFrames p
        \<or> (\<exists>args. OpenStream args \<in> set (rt_calls (audio (call_methods E ms p)))))"
proof (induction ms arbitrary: p)
  case Nil
  show ?case
    by simp
next
  case (Cons m ms)
  let ?q = "call_method E m p"
  note step = call_method_step [of E m p]
  note rest = Cons.IH [of ?q]
  from rest obtain cs where cs: "rt_calls (audio (call_methods E ms ?q)) = rt_calls (audio ?q) @ cs"
    by blast
  from step obtain ds where ds: "rt_calls (audio ?q) = rt_calls (audio p) @ ds"
    by blast
  from cs ds have ext: "\<exists>es. rt_calls (audio (call_methods E ms ?q)) = rt_calls (audio p) @ es"
    by simp
  have frames: "bufferFrames (call_methods E ms ?q) = bufferFrames p
        \<or> (\<exists>args. OpenStream args \<in> set (rt_calls (audio (call_methods E ms ?q))))"
  proof (cases "\<exists>args. OpenStream args \<in> set (rt_calls (audio ?q))")
    case True
    with cs show ?thesis
      by auto
  next
    case False
    with step have "bufferFrames ?q = bufferFrames p"
      by blast
    with rest show ?thesis
      by auto
  qed
  from step rest ext frames show ?case
    by simp
qed

text \<open>
  So a context made by \<open>create\<close> keeps, through any sequence of method calls, the format
  \<open>RTAUDIO_SINT16\<close>, the rate 44100 and its parameters, and keeps the buffer size 256 for
  as long as no \<open>openStream\<close> call has been made on it.
\<close>

lemma create_configuration:
  assumes "create E inputDevice outputDevice = Inr (StreamContext (Some p))"
  shows "format p = RTAUDIO_SINT16" and "sampleRate p = 44100" and "bufferFrames p = 256"
    and "opts p = None"
  using assms
  by (auto simp: create_def Let_def Private_new_def split: if_splits sum.splits)

lemma created_context_keeps:
  assumes "create E inputDevice outputDevice = Inr (StreamContext (Some p0))"
    and "p = call_methods E ms p0"
  shows "format p = RTAUDIO_SINT16" and "sampleRate p = 44100"
    and "inParams p = inParams p0" and "outParams p = outParams p0" and "opts p = None"
    and "(\<forall>args. OpenStream args \<notin> set (rt_calls (audio p))) \<longrightarrow> bufferFrames p = 256"
  using call_methods_keep [of E ms p0] create_configuration [OF assms(1)] assms(2)
  by auto

text \<open>
  On the second test double, the context made by \<open>create(0, -1)\<close>, opened, closed and
  opened again.
\<close>

lemma create_mic_context512:
  "create (stub512 [mic, speakers]) 0 (- 1) = Inr (StreamContext (Some mic_context512))"
  by (simp add: create_def create_inParams_def create_outParams_def mic_context512_def
      RtAudio_getDeviceInfo_def RtAudio_new_def static_cast_quint32_def stub512_def stub_def
      mic_def)

lemma open_mic_context512:
  "call_methods (stub512 [mic, speakers]) [Open] mic_context512 =
     mic_context512\<lparr>audio := \<lparr>rt_state = STREAM_STOPPED,
                                 rt_calls = [ShowWarnings True,
                                             OpenStream (openStream_call mic_context512)]\<rparr>,
                     bufferFrames := 512\<rparr>"
  by (simp add: Private_open_def mic_context512_def model_simps stub512_def stub_simps)

lemma open_close_mic_context512:
  "call_methods (stub512 [mic, speakers]) [Open, Close] mic_context512 =
     mic_context512\<lparr>audio := \<lparr>rt_state = STREAM_CLOSED,
                                 rt_calls = [ShowWarnings True,
                                             OpenStream (openStream_call mic_context512),
                                             CloseStream]\<rparr>,
                     bufferFrames := 512\<rparr>"
proof -
  have "call_methods (stub512 [mic, speakers]) [Open, Close] mic_context512 =
          snd (Private_close (stub512 [mic, speakers])
                 (call_methods (stub512 [mic, speakers]) [Open] mic_context512))"
    by simp
  also have "\<dots> = mic_context512\<lparr>audio := \<lparr>rt_state = STREAM_CLOSED,
                                 rt_calls = [ShowWarnings True,
                                             OpenStream (openStream_call mic_context512),
                                             CloseStream]\<rparr>,
                     bufferFrames := 512\<rparr>"
    unfolding open_mic_context512
    by (simp add: Private_close_def RtAudio_isStreamOpen_def RtAudio_closeStream_def
        stub512_def stub_def)
  finally show ?thesis .
qed

lemma reopen_mic_context512:
  "Private_open (stub512 [mic, speakers])
     (call_methods (stub512 [mic, speakers]) [Open, Close] mic_context512) =
     (Inr True,
      mic_context512\<lparr>audio := \<lparr>rt_state = STREAM_STOPPED,
                                 rt_calls = [ShowWarnings True,
                                             OpenStream (openStream_call mic_context512),
                                             CloseStream,
                                             OpenStream ((openStream_call mic_context512)
                                                \<lparr>arg_bufferFrames := 512\<rparr>)]\<rparr>,
                     bufferFrames := 512\<rparr>)"
  unfolding open_close_mic_context512
  by (simp add: Private_open_def mic_context512_def model_simps stub512_def stub_simps)




text \<open>
  C4. \<open>start()\<close> begins with \<open>open()\<close>, which on a stream not yet open calls
  \<open>openStream\<close>. If \<open>open()\<close> returns false, \<open>start()\<close> returns false and leaves the
  object as \<open>open()\<close> left it, so no start is requested. If \<open>open()\<close> returns true,
  \<open>start()\<close> makes one more library call, \<open>startStream\<close>, and, when that call returns,
  returns what \<open>isStreamRunning\<close> then reports. An exception of the library leaves
  \<open>start()\<close> as it left the call.
\<close>

theorem Private_start_opens_then_starts:
  "Private_open E p = (ro, po) \<and> Private_start E p = (r, p') \<longrightarrow>
     (\<not> RtAudio_isStreamOpen E (audio p) \<longrightarrow>
        rt_calls (audio po) = rt_calls (audio p) @ [OpenStream (openStream_call p)])
     \<and> (ro = Inr False \<longrightarrow> r = Inr False \<and> p' = po)
     \<and> (\<forall>e. ro = Inl e \<longrightarrow> r = Inl e \<and> p' = po)
     \<and> (ro = Inr True \<longrightarrow>
          rt_calls (audio p') = rt_calls (audio po) @ [StartStream]
          \<and> rt_state (audio p') = snd (startStream E (rt_state (audio po)))
          \<and> p' = po\<lparr>audio := audio p'\<rparr>
          \<and> (fst (startStream E (rt_state (audio po))) = None \<longrightarrow>
                r = Inr (RtAudio_isStreamRunning E (audio p')))
          \<and> (\<forall>e. fst (startStream E (rt_state (audio po))) = Some e \<longrightarrow> r = Inl e))"
  by (auto simp: Private_start_def Private_open_def RtAudio_startStream_def RtAudio_openStream_def
      RtAudio_isStreamRunning_def
      split: prod.splits option.splits if_splits sum.splits)

text \<open>
  On the test double: \<open>start()\<close> opens and starts the context made by \<open>create(0, -1)\<close>
  and returns true; on the context the test double refuses to open, it returns false
  after the one \<open>openStream\<close> call.
\<close>

theorem Private_start_opens_then_starts_witness:
  "\<not> RtAudio_isStreamOpen (stub [mic, speakers]) (audio mic_context)
   \<and> fst (Private_start (stub [mic, speakers]) mic_context) = Inr True
   \<and> rt_calls (audio (snd (Private_start (stub [mic, speakers]) mic_context)))
       = rt_calls (audio mic_context) @ [OpenStream (openStream_call mic_context), StartStream]
   \<and> RtAudio_isStreamRunning (stub [mic, speakers])
        (audio (snd (Private_start (stub [mic, speakers]) mic_context)))
   \<and> \<not> RtAudio_isStreamOpen (stub [mic, speakers]) (audio refused_context)
   \<and> fst (Private_start (stub [mic, speakers]) refused_context) = Inr False
   \<and> rt_calls (audio (snd (Private_start (stub [mic, speakers]) refused_context)))
       = rt_calls (audio refused_context) @ [OpenStream (openStream_call refused_context)]"
proof -
  let ?E = "stub [mic, speakers]"
  obtain ro po where opn: "Private_open ?E mic_context = (ro, po)"
    by (cases "Private_open ?E mic_context")
  obtain r p' where run: "Private_start ?E mic_context = (r, p')"
    by (cases "Private_start ?E mic_context")
  have closed: "\<not> RtAudio_isStreamOpen ?E (audio mic_context)"
    by (simp add: mic_context_def model_simps stub_def)
  from opn have ro: "ro = Inr True" and po_state: "rt_state (audio po) = STREAM_STOPPED"
    by (auto simp: open_mic_context)
  have returns: "fst (startStream ?E (rt_state (audio po))) = None"
    and running: "isStreamRunning ?E (snd (startStream ?E (rt_state (audio po))))"
    by (simp_all add: po_state stub_def)
  from Private_start_opens_then_starts [of ?E mic_context ro po r p'] opn run closed ro returns
  have calls_po: "rt_calls (audio po) = rt_calls (audio mic_context) @ [OpenStream (openStream_call mic_context)]"
    and calls: "rt_calls (audio p') = rt_calls (audio po) @ [StartStream]"
    and state: "rt_state (audio p') = snd (startStream ?E (rt_state (audio po)))"
    and r: "r = Inr (RtAudio_isStreamRunning ?E (audio p'))"
    by simp_all
  from state running have is_running: "RtAudio_isStreamRunning ?E (audio p')"
    by (simp add: RtAudio_isStreamRunning_def)
  obtain ro' po' where opn': "Private_open ?E refused_context = (ro', po')"
    by (cases "Private_open ?E refused_context")
  obtain r' q where run': "Private_start ?E refused_context = (r', q)"
    by (cases "Private_start ?E refused_context")
  have closed': "\<not> RtAudio_isStreamOpen ?E (audio refused_context)"
    by (simp add: refused_context_def model_simps stub_def)
  from opn' have ro': "ro' = Inr False"
    by (auto simp: open_refused_context)
  from Private_start_opens_then_starts [of ?E refused_context ro' po' r' q] opn' run' closed' ro'
  have calls_po': "rt_calls (audio po') = rt_calls (audio refused_context) @ [OpenStream (openStream_call refused_context)]"
    and r': "r' = Inr False" and q: "q = po'"
    by simp_all
  from closed run r is_running calls calls_po closed' run' r' q calls_po' show ?thesis
    by simp
qed

text \<open>
  C5. \<open>stop()\<close> on a stream the library reports not running returns true and leaves the
  object as it was, so makes no library call; a context on which \<open>start()\<close> was never
  called is in that case whenever the library reports a fresh instance not running.
  Otherwise \<open>stop()\<close> makes exactly one library call, \<open>stopStream\<close>, and, when that call
  returns, returns whether \<open>isStreamRunning\<close> then reports the stream no longer running.
\<close>

theorem Private_stop_noop_unless_running:
  "(\<not> RtAudio_isStreamRunning E (audio p) \<longrightarrow> Private_stop E p = (Inr True, p))
   \<and> (RtAudio_isStreamRunning E (audio p) \<and> Private_stop E p = (r, p') \<longrightarrow>
        rt_calls (audio p') = rt_calls (audio p) @ [StopStream]
        \<and> rt_state (audio p') = snd (stopStream E (rt_state (audio p)))
        \<and> p' = p\<lparr>audio := audio p'\<rparr>
        \<and> (fst (stopStream E (rt_state (audio p))) = None \<longrightarrow>
              r = Inr (\<not> RtAudio_isStreamRunning E (audio p')))
        \<and> (\<forall>e. fst (stopStream E (rt_state (audio p))) = Some e \<longrightarrow> r = Inl e))"
  by (auto simp: Private_stop_def RtAudio_stopStream_def RtAudio_isStreamRunning_def
      split: prod.splits option.splits if_splits)

text \<open>
  On the test double: \<open>stop()\<close> before any \<open>start()\<close> changes nothing and returns true;
  after \<open>start()\<close> it calls \<open>stopStream\<close> and returns true.
\<close>

theorem Private_stop_noop_unless_running_witness:
  "\<not> RtAudio_isStreamRunning (stub [mic, speakers]) (audio mic_context)
   \<and> Private_stop (stub [mic, speakers]) mic_context = (Inr True, mic_context)
   \<and> RtAudio_isStreamRunning (stub [mic, speakers])
        (audio (snd (Private_start (stub [mic, speakers]) mic_context)))
   \<and> fst (Private_stop (stub [mic, speakers])
            (snd (Private_start (stub [mic, speakers]) mic_context))) = Inr True
   \<and> rt_calls (audio (snd (Private_stop (stub [mic, speakers])
            (snd (Private_start (stub [mic, speakers]) mic_context)))))
       = rt_calls (audio (snd (Private_start (stub [mic, speakers]) mic_context))) @ [StopStream]"
proof -
  let ?E = "stub [mic, speakers]"
  let ?s = "snd (Private_start ?E mic_context)"
  have idle: "\<not> RtAudio_isStreamRunning ?E (audio mic_context)"
    by (simp add: mic_context_def model_simps stub_def)
  with Private_stop_noop_unless_running [of ?E mic_context]
  have noop: "Private_stop ?E mic_context = (Inr True, mic_context)"
    by simp
  have state: "rt_state (audio ?s) = STREAM_RUNNING"
    by (simp add: start_mic_context)
  then have running: "RtAudio_isStreamRunning ?E (audio ?s)"
    by (simp add: RtAudio_isStreamRunning_def stub_def)
  obtain r p' where run: "Private_stop ?E ?s = (r, p')"
    by (cases "Private_stop ?E ?s")
  have returns: "fst (stopStream ?E (rt_state (audio ?s))) = None"
    and stopped: "\<not> isStreamRunning ?E (snd (stopStream ?E (rt_state (audio ?s))))"
    by (simp_all add: state stub_def)
  from Private_stop_noop_unless_running [of ?E ?s r p'] running run returns
  have calls: "rt_calls (audio p') = rt_calls (audio ?s) @ [StopStream]"
    and st: "rt_state (audio p') = snd (stopStream ?E (rt_state (audio ?s)))"
    and r: "r = Inr (\<not> RtAudio_isStreamRunning ?E (audio p'))"
    by simp_all
  from st stopped r have "r = Inr True"
    by (simp add: RtAudio_isStreamRunning_def)
  with idle noop running run calls show ?thesis
    by simp
qed

text \<open>
  C8. \<open>close()\<close> on a stream the library reports not open leaves the object as it was, so
  the stream state is unchanged and no library call is made. Otherwise it makes exactly
  one library call, \<open>closeStream\<close>, and changes nothing but the library's instance.
\<close>

theorem Private_close_noop_unless_open:
  "(\<not> RtAudio_isStreamOpen E (audio p) \<longrightarrow> Private_close E p = (Inr (), p))
   \<and> (RtAudio_isStreamOpen E (audio p) \<and> Private_close E p = (r, p') \<longrightarrow>
        rt_calls (audio p') = rt_calls (audio p) @ [CloseStream]
        \<and> rt_state (audio p') = snd (closeStream E (rt_state (audio p)))
        \<and> p' = p\<lparr>audio := audio p'\<rparr>
        \<and> (fst (closeStream E (rt_state (audio p))) = None \<longrightarrow> r = Inr ())
        \<and> (\<forall>e. fst (closeStream E (rt_state (audio p))) = Some e \<longrightarrow> r = Inl e))"
  by (auto simp: Private_close_def RtAudio_closeStream_def
      split: prod.splits option.splits if_splits)

text \<open>
  On the test double: \<open>close()\<close> on the context as created changes nothing; after
  \<open>open()\<close> it calls \<open>closeStream\<close>, and the stream is closed.
\<close>

theorem Private_close_noop_unless_open_witness:
  "\<not> RtAudio_isStreamOpen (stub [mic, speakers]) (audio mic_context)
   \<and> Private_close (stub [mic, speakers]) mic_context = (Inr (), mic_context)
   \<and> RtAudio_isStreamOpen (stub [mic, speakers])
        (audio (snd (Private_open (stub [mic, speakers]) mic_context)))
   \<and> fst (Private_close (stub [mic, speakers])
            (snd (Private_open (stub [mic, speakers]) mic_context))) = Inr ()
   \<and> rt_calls (audio (snd (Private_close (stub [mic, speakers])
            (snd (Private_open (stub [mic, speakers]) mic_context)))))
       = rt_calls (audio (snd (Private_open (stub [mic, speakers]) mic_context))) @ [CloseStream]
   \<and> \<not> RtAudio_isStreamOpen (stub [mic, speakers])
        (audio (snd (Private_close (stub [mic, speakers])
            (snd (Private_open (stub [mic, speakers]) mic_context)))))"
proof -
  let ?E = "stub [mic, speakers]"
  let ?s = "snd (Private_open ?E mic_context)"
  have closed: "\<not> RtAudio_isStreamOpen ?E (audio mic_context)"
    by (simp add: mic_context_def model_simps stub_def)
  with Private_close_noop_unless_open [of ?E mic_context]
  have noop: "Private_close ?E mic_context = (Inr (), mic_context)"
    by simp
  have state: "rt_state (audio ?s) = STREAM_STOPPED"
    by (simp add: open_mic_context)
  then have opened: "RtAudio_isStreamOpen ?E (audio ?s)"
    by (simp add: RtAudio_isStreamOpen_def stub_def)
  obtain r p' where run: "Private_close ?E ?s = (r, p')"
    by (cases "Private_close ?E ?s")
  have returns: "fst (closeStream ?E (rt_state (audio ?s))) = None"
    and closed_after: "\<not> isStreamOpen ?E (snd (closeStream ?E (rt_state (audio ?s))))"
    by (simp_all add: state stub_def)
  from Private_close_noop_unless_open [of ?E ?s r p'] opened run returns
  have calls: "rt_calls (audio p') = rt_calls (audio ?s) @ [CloseStream]"
    and st: "rt_state (audio p') = snd (closeStream ?E (rt_state (audio ?s)))"
    and r: "r = Inr ()"
    by simp_all
  from st closed_after have "\<not> RtAudio_isStreamOpen ?E (audio p')"
    by (simp add: RtAudio_isStreamOpen_def)
  with closed noop opened run calls r show ?thesis
    by simp
qed

subsection \<open>The configuration of a context\<close>

text \<open>No method writes \<open>format\<close> or \<open>sampleRate\<close>.\<close>

lemma Private_methods_keep_format_and_rate:
  "format (snd (Private_open E p)) = format p \<and> sampleRate (snd (Private_open E p)) = sampleRate p
   \<and> format (snd (Private_close E p)) = format p \<and> sampleRate (snd (Private_close E p)) = sampleRate p
   \<and> format (snd (Private_start E p)) = format p \<and> sampleRate (snd (Private_start E p)) = sampleRate p
   \<and> format (snd (Private_stop E p)) = format p \<and> sampleRate (snd (Private_stop E p)) = sampleRate p"
  by (auto simp: Private_open_def Private_close_def Private_start_def Private_stop_def
      split: prod.splits option.splits sum.splits if_splits)

text \<open>
  C9, as the code has it. A context has the format \<open>RTAUDIO_SINT16\<close>, the sample rate 44100
  and the buffer size 256 when \<open>create\<close> returns it. After any sequence of method calls
  it still has that format and that rate, and still the buffer size 256 if no
  \<open>openStream\<close> call has been made on it. Every \<open>open()\<close> that finds the stream not open
  calls the library's \<open>openStream\<close> on the library's current state with
  \<open>RTAUDIO_SINT16\<close>, 44100 and the buffer size stored at that moment, and stores the
  buffer size the library leaves behind.
\<close>

theorem created_context_configuration:
  "create E inputDevice outputDevice = Inr (StreamContext (Some p0))
     \<and> p = call_methods E ms p0 \<longrightarrow>
     format p0 = RTAUDIO_SINT16 \<and> sampleRate p0 = 44100 \<and> bufferFrames p0 = 256
     \<and> format p = RTAUDIO_SINT16 \<and> sampleRate p = 44100
     \<and> ((\<forall>args. OpenStream args \<notin> set (rt_calls (audio p))) \<longrightarrow> bufferFrames p = 256)
     \<and> (\<not> RtAudio_isStreamOpen E (audio p) \<and> Private_open E p = (r, p') \<longrightarrow>
          (\<exists>args. rt_calls (audio p') = rt_calls (audio p) @ [OpenStream args]
             \<and> arg_format args = RTAUDIO_SINT16
             \<and> arg_sampleRate args = 44100
             \<and> arg_bufferFrames args = bufferFrames p
             \<and> rt_state (audio p') = fst (snd (openStream E args (rt_state (audio p))))
             \<and> bufferFrames p' = snd (snd (openStream E args (rt_state (audio p))))))"
proof (intro impI, elim conjE)
  assume made: "create E inputDevice outputDevice = Inr (StreamContext (Some p0))"
    and p: "p = call_methods E ms p0"
  note keeps = created_context_keeps [OF made p]
  note fresh = create_configuration [OF made]
  have opens: "\<not> RtAudio_isStreamOpen E (audio p) \<and> Private_open E p = (r, p') \<longrightarrow>
          (\<exists>args. rt_calls (audio p') = rt_calls (audio p) @ [OpenStream args]
             \<and> arg_format args = RTAUDIO_SINT16
             \<and> arg_sampleRate args = 44100
             \<and> arg_bufferFrames args = bufferFrames p
             \<and> rt_state (audio p') = fst (snd (openStream E args (rt_state (audio p))))
             \<and> bufferFrames p' = snd (snd (openStream E args (rt_state (audio p)))))"
  proof (intro impI, elim conjE)
    assume closed: "\<not> RtAudio_isStreamOpen E (audio p)" and run: "Private_open E p = (r, p')"
    from closed run
    have "rt_calls (audio p') = rt_calls (audio p) @ [OpenStream (openStream_call p)]
          \<and> rt_state (audio p') = fst (snd (openStream E (openStream_call p) (rt_state (audio p))))
          \<and> bufferFrames p' = snd (snd (openStream E (openStream_call p) (rt_state (audio p))))"
      by (auto simp: Private_open_def RtAudio_openStream_def
          split: prod.splits option.splits if_splits)
    moreover from keeps(1,2)
    have "arg_format (openStream_call p) = RTAUDIO_SINT16
          \<and> arg_sampleRate (openStream_call p) = 44100
          \<and> arg_bufferFrames (openStream_call p) = bufferFrames p"
      by (simp add: openStream_call_def)
    ultimately show "\<exists>args. rt_calls (audio p') = rt_calls (audio p) @ [OpenStream args]
             \<and> arg_format args = RTAUDIO_SINT16
             \<and> arg_sampleRate args = 44100
             \<and> arg_bufferFrames args = bufferFrames p
             \<and> rt_state (audio p') = fst (snd (openStream E args (rt_state (audio p))))
             \<and> bufferFrames p' = snd (snd (openStream E args (rt_state (audio p))))"
      by blast
  qed
  from fresh(1,2,3) keeps(1,2,6) opens
  show "format p0 = RTAUDIO_SINT16 \<and> sampleRate p0 = 44100 \<and> bufferFrames p0 = 256
     \<and> format p = RTAUDIO_SINT16 \<and> sampleRate p = 44100
     \<and> ((\<forall>args. OpenStream args \<notin> set (rt_calls (audio p))) \<longrightarrow> bufferFrames p = 256)
     \<and> (\<not> RtAudio_isStreamOpen E (audio p) \<and> Private_open E p = (r, p') \<longrightarrow>
          (\<exists>args. rt_calls (audio p') = rt_calls (audio p) @ [OpenStream args]
             \<and> arg_format args = RTAUDIO_SINT16
             \<and> arg_sampleRate args = 44100
             \<and> arg_bufferFrames args = bufferFrames p
             \<and> rt_state (audio p') = fst (snd (openStream E args (rt_state (audio p))))
             \<and> bufferFrames p' = snd (snd (openStream E args (rt_state (audio p))))))"
    by blast
qed

text \<open>
  The buffer size does not stay 256: on the second test double, the context made by
  \<open>create(0, -1)\<close> holds 512 after its first \<open>open()\<close>, and an \<open>open()\<close> after \<open>close()\<close>
  passes 512 to the library.
\<close>

theorem created_context_buffer_size_rewritten:
  "create (stub512 [mic, speakers]) 0 (- 1) = Inr (StreamContext (Some mic_context512))
   \<and> bufferFrames mic_context512 = 256
   \<and> bufferFrames (call_methods (stub512 [mic, speakers]) [Open] mic_context512) = 512
   \<and> \<not> RtAudio_isStreamOpen (stub512 [mic, speakers])
         (audio (call_methods (stub512 [mic, speakers]) [Open, Close] mic_context512))
   \<and> (\<exists>args. last (rt_calls (audio (snd (Private_open (stub512 [mic, speakers])
                  (call_methods (stub512 [mic, speakers]) [Open, Close] mic_context512)))))
                = OpenStream args
          \<and> arg_bufferFrames args = 512)"
proof -
  have "bufferFrames mic_context512 = 256"
    by (simp add: mic_context512_def Private_new_def)
  moreover have "bufferFrames (call_methods (stub512 [mic, speakers]) [Open] mic_context512) = 512"
    unfolding open_mic_context512 by simp
  moreover have "\<not> RtAudio_isStreamOpen (stub512 [mic, speakers])
         (audio (call_methods (stub512 [mic, speakers]) [Open, Close] mic_context512))"
    unfolding open_close_mic_context512
    by (simp add: RtAudio_isStreamOpen_def stub512_def stub_def)
  moreover have "\<exists>args. last (rt_calls (audio (snd (Private_open (stub512 [mic, speakers])
                  (call_methods (stub512 [mic, speakers]) [Open, Close] mic_context512)))))
                = OpenStream args
          \<and> arg_bufferFrames args = 512"
    unfolding reopen_mic_context512 by simp
  ultimately show ?thesis
    using create_mic_context512 by blast
qed

text \<open>
  The same context through the theorem: 256 when created; after \<open>open()\<close> and \<open>close()\<close>
  the format and rate are unchanged and the next \<open>open()\<close> passes them with 512 frames.
\<close>

theorem created_context_configuration_witness:
  "create (stub512 [mic, speakers]) 0 (- 1) = Inr (StreamContext (Some mic_context512))
   \<and> format mic_context512 = RTAUDIO_SINT16
   \<and> sampleRate mic_context512 = 44100
   \<and> bufferFrames mic_context512 = 256
   \<and> format (call_methods (stub512 [mic, speakers]) [Open, Close] mic_context512) = RTAUDIO_SINT16
   \<and> sampleRate (call_methods (stub512 [mic, speakers]) [Open, Close] mic_context512) = 44100
   \<and> \<not> RtAudio_isStreamOpen (stub512 [mic, speakers])
         (audio (call_methods (stub512 [mic, speakers]) [Open, Close] mic_context512))
   \<and> (\<exists>args. rt_calls (audio (snd (Private_open (stub512 [mic, speakers])
                  (call_methods (stub512 [mic, speakers]) [Open, Close] mic_context512))))
                = rt_calls (audio (call_methods (stub512 [mic, speakers]) [Open, Close]
                     mic_context512)) @ [OpenStream args]
          \<and> arg_format args = RTAUDIO_SINT16
          \<and> arg_sampleRate args = 44100
          \<and> arg_bufferFrames args = 512)"
proof -
  let ?E = "stub512 [mic, speakers]"
  let ?p = "call_methods ?E [Open, Close] mic_context512"
  obtain r p' where run: "Private_open ?E ?p = (r, p')"
    by (cases "Private_open ?E ?p")
  note made = create_mic_context512
  have closed: "\<not> RtAudio_isStreamOpen ?E (audio ?p)"
    unfolding open_close_mic_context512
    by (simp add: RtAudio_isStreamOpen_def stub512_def stub_def)
  have frames: "bufferFrames ?p = 512"
    unfolding open_close_mic_context512 by simp
  note inst = created_context_configuration
    [where E = ?E and p = ?p and r = r and p' = p' and inputDevice = 0
       and outputDevice = "- 1" and ?p0.0 = mic_context512 and ms = "[Open, Close]"]
  from inst made
  have fresh: "format mic_context512 = RTAUDIO_SINT16" "sampleRate mic_context512 = 44100"
    "bufferFrames mic_context512 = 256"
    and later: "format ?p = RTAUDIO_SINT16" "sampleRate ?p = 44100"
    by blast+
  from inst made closed run
  obtain args where "rt_calls (audio p') = rt_calls (audio ?p) @ [OpenStream args]"
    and "arg_format args = RTAUDIO_SINT16" and "arg_sampleRate args = 44100"
    and "arg_bufferFrames args = bufferFrames ?p"
    by blast
  with frames run
  have "\<exists>args. rt_calls (audio (snd (Private_open ?E ?p))) = rt_calls (audio ?p) @ [OpenStream args]
          \<and> arg_format args = RTAUDIO_SINT16
          \<and> arg_sampleRate args = 44100
          \<and> arg_bufferFrames args = 512"
    by auto
  with made fresh later closed show ?thesis
    by blast
qed

end
